theory Spec2Isabelle
  imports Main "HOL-Library.Sublist" "HOL-Library.Word"
begin

section \<open>Package entry point: \<^verbatim>\<open>src/__init__.py\<close>\<close>

text \<open>
  The package initialiser is a straight-line script: seven unguarded
  \<^verbatim>\<open>from .m import ...\<close> statements, one guarded block of two more, the assignment
  of \<^verbatim>\<open>__all__\<close> and a conditional \<^verbatim>\<open>__all__.extend\<close>. What it does depends only
  on what each imported module does when it is loaded, so the model takes that as its
  input: an environment giving, for every module name, either the attributes the loaded
  module defines or the exception its import raises.
\<close>

datatype py_exception = ImportError | ModuleNotFoundError | OtherException

text \<open>
  \<^verbatim>\<open>except ImportError\<close> catches the class and its subclasses;
  \<^verbatim>\<open>ModuleNotFoundError\<close> is the subclass the import system raises for a module
  that is not there. \<open>OtherException\<close> stands for every exception outside that class.
\<close>

fun is_ImportError :: "py_exception \<Rightarrow> bool" where
  "is_ImportError ImportError = True"
| "is_ImportError ModuleNotFoundError = True"
| "is_ImportError OtherException = False"

datatype module_outcome = Loaded "string list" | Raises py_exception

type_synonym import_env = "string \<Rightarrow> module_outcome"

text \<open>
  \<^verbatim>\<open>from m import a, b, c\<close>: the exception of loading \<open>m\<close> propagates; a name the
  loaded module does not define raises \<^verbatim>\<open>ImportError\<close> (cannot import name); otherwise
  the names are bound. The statement binds one name after the other, so when it fails on
  a missing name the names listed before that one are bound already:
  \<open>bound_on_failure\<close> gives them.
\<close>

definition from_import :: "import_env \<Rightarrow> string \<Rightarrow> string list \<Rightarrow> py_exception + string list" where
  "from_import env m names =
     (case env m of
        Raises e \<Rightarrow> Inl e
      | Loaded attrs \<Rightarrow> if list_all (\<lambda>n. n \<in> set attrs) names then Inr names else Inl ImportError)"

definition bound_on_failure :: "import_env \<Rightarrow> string \<Rightarrow> string list \<Rightarrow> string list" where
  "bound_on_failure env m names =
     (case env m of
        Raises e \<Rightarrow> []
      | Loaded attrs \<Rightarrow> takeWhile (\<lambda>n. n \<in> set attrs) names)"

text \<open>Lines 5 to 16: the unguarded imports, in source order.\<close>

definition core_imports :: "(string \<times> string list) list" where
  "core_imports =
     [(''.errors'', [''ChromaSQLError'', ''ChromaSQLExecutionError'',
                     ''ChromaSQLParseError'', ''ChromaSQLPlanningError'']),
      (''.parser'', [''parse'']),
      (''.planner'', [''build_plan'']),
      (''.plan'', [''QueryPlan'', ''PlanProjectionItem'']),
      (''.executor'', [''execute_plan'', ''ExecutionResult'']),
      (''.explain'', [''plan_to_dict'']),
      (''.analysis'', [''extract_metadata_values''])]"

text \<open>Lines 20 to 29: the names the guarded block asks for.\<close>

definition multi_collection_imports :: "string list" where
  "multi_collection_imports =
     [''CollectionRouter'', ''AsyncCollectionProvider'', ''execute_multi_collection'']"

definition adapters_imports :: "string list" where
  "adapters_imports =
     [''AsyncMultiCollectionAdapter'', ''MetadataFieldRouter'', ''SimpleAsyncClientAdapter'']"

text \<open>Lines 35 to 51: the literal assigned to \<^verbatim>\<open>__all__\<close>.\<close>

definition core_exports :: "string list" where
  "core_exports =
     [''parse'', ''build_plan'', ''plan_to_dict'', ''execute_plan'', ''ExecutionResult'',
      ''QueryPlan'', ''PlanProjectionItem'',
      ''ChromaSQLError'', ''ChromaSQLParseError'', ''ChromaSQLPlanningError'',
      ''ChromaSQLExecutionError'',
      ''extract_metadata_values'']"

text \<open>Lines 56 to 63: the list passed to \<^verbatim>\<open>__all__.extend\<close>.\<close>

definition multi_collection_exports :: "string list" where
  "multi_collection_exports =
     [''CollectionRouter'', ''AsyncCollectionProvider'', ''execute_multi_collection'',
      ''AsyncMultiCollectionAdapter'', ''MetadataFieldRouter'', ''SimpleAsyncClientAdapter'']"

text \<open>
  The module object after a successful import: the names bound by the import
  statements, the flag \<^verbatim>\<open>_MULTI_COLLECTION_AVAILABLE\<close> and \<^verbatim>\<open>__all__\<close>.
\<close>

record package =
  namespace :: "string list"
  MULTI_COLLECTION_AVAILABLE :: bool
  all_names :: "string list"

text \<open>A run of unguarded import statements: the first exception aborts the script.\<close>

fun run_imports :: "import_env \<Rightarrow> (string \<times> string list) list \<Rightarrow> string list \<Rightarrow> py_exception + string list" where
  "run_imports env [] ns = Inr ns"
| "run_imports env ((m, names) # rest) ns =
     (case from_import env m names of
        Inl e \<Rightarrow> Inl e
      | Inr bound \<Rightarrow> run_imports env rest (ns @ bound))"

text \<open>
  Lines 19 to 33, the \<^verbatim>\<open>try\<close> block. The flag is set to \<open>True\<close> only after both
  imports; an exception of class \<^verbatim>\<open>ImportError\<close> from either sets it to \<open>False\<close>
  and keeps what was bound before, the names the failing statement had bound among them;
  any other exception leaves the block.
\<close>

definition try_multi_collection :: "import_env \<Rightarrow> string list \<Rightarrow> py_exception + (string list \<times> bool)" where
  "try_multi_collection env ns =
     (case from_import env ''.multi_collection'' multi_collection_imports of
        Inl e \<Rightarrow>
          if is_ImportError e
          then Inr (ns @ bound_on_failure env ''.multi_collection'' multi_collection_imports, False)
          else Inl e
      | Inr b1 \<Rightarrow>
          (case from_import env ''.adapters'' adapters_imports of
             Inl e \<Rightarrow>
               if is_ImportError e
               then Inr (ns @ b1 @ bound_on_failure env ''.adapters'' adapters_imports, False)
               else Inl e
           | Inr b2 \<Rightarrow> Inr (ns @ b1 @ b2, True)))"

text \<open>
  The whole script. \<^verbatim>\<open>from __future__ import annotations\<close> (line 3) cannot fail and
  binds \<^verbatim>\<open>annotations\<close>.
\<close>

definition init_package :: "import_env \<Rightarrow> py_exception + package" where
  "init_package env =
     (case run_imports env core_imports [''annotations''] of
        Inl e \<Rightarrow> Inl e
      | Inr ns \<Rightarrow>
          (case try_multi_collection env ns of
             Inl e \<Rightarrow> Inl e
           | Inr (ns', available) \<Rightarrow>
               Inr \<lparr> namespace = ns',
                     MULTI_COLLECTION_AVAILABLE = available,
                     all_names = (if available then core_exports @ multi_collection_exports
                                  else core_exports) \<rparr>))"

text \<open>What the claims call "importing the modules succeeds", read off the environment.\<close>

definition core_importable :: "import_env \<Rightarrow> bool" where
  "core_importable env =
     list_all (\<lambda>(m, names). from_import env m names = Inr names) core_imports"

definition multi_collection_importable :: "import_env \<Rightarrow> bool" where
  "multi_collection_importable env =
     (from_import env ''.multi_collection'' multi_collection_imports = Inr multi_collection_imports \<and>
      from_import env ''.adapters'' adapters_imports = Inr adapters_imports)"

text \<open>
  The guarded block fails with \<^verbatim>\<open>ImportError\<close>: its first import raises one, or its
  first import succeeds and its second raises one.
\<close>

definition multi_collection_import_error :: "import_env \<Rightarrow> bool" where
  "multi_collection_import_error env =
     (case from_import env ''.multi_collection'' multi_collection_imports of
        Inl e \<Rightarrow> is_ImportError e
      | Inr _ \<Rightarrow>
          (case from_import env ''.adapters'' adapters_imports of
             Inl e \<Rightarrow> is_ImportError e
           | Inr _ \<Rightarrow> False))"

text \<open>Two concrete environments: the full installation, and one without the optional modules.\<close>

definition env_core :: import_env where
  "env_core m =
     (if m = ''.errors'' then Loaded [''ChromaSQLError'', ''ChromaSQLParseError'',
                                      ''ChromaSQLPlanningError'', ''ChromaSQLExecutionError'']
      else if m = ''.parser'' then Loaded [''parse'']
      else if m = ''.planner'' then Loaded [''build_plan'']
      else if m = ''.plan'' then Loaded [''QueryPlan'', ''PlanProjectionItem'']
      else if m = ''.executor'' then Loaded [''execute_plan'', ''ExecutionResult'']
      else if m = ''.explain'' then Loaded [''plan_to_dict'']
      else if m = ''.analysis'' then Loaded [''extract_metadata_values'']
      else Raises ModuleNotFoundError)"

definition env_full :: import_env where
  "env_full m =
     (if m = ''.multi_collection'' then
        Loaded [''CollectionRouter'', ''AsyncCollectionProvider'', ''execute_multi_collection'']
      else if m = ''.adapters'' then
        Loaded [''AsyncMultiCollectionAdapter'', ''MetadataFieldRouter'', ''SimpleAsyncClientAdapter'']
      else env_core m)"

text \<open>The module objects the script leaves in those two environments.\<close>

definition pkg_full :: package where
  "pkg_full =
     \<lparr> namespace = ''annotations'' # concat (map snd core_imports) @ multi_collection_exports,
       MULTI_COLLECTION_AVAILABLE = True,
       all_names = core_exports @ multi_collection_exports \<rparr>"

definition pkg_core :: package where
  "pkg_core =
     \<lparr> namespace = ''annotations'' # concat (map snd core_imports),
       MULTI_COLLECTION_AVAILABLE = False,
       all_names = core_exports \<rparr>"

section \<open>Documentation macro: \<^verbatim>\<open>src/docs/main.py\<close>\<close>

text \<open>
  \<^verbatim>\<open>read_file\<close> joins \<^verbatim>\<open>DOCS_ROOT\<close> with its argument and reads the file as UTF-8
  text. The code is two lines; what it does is the behaviour of \<^verbatim>\<open>pathlib\<close>, of the
  operating system's path lookup and of Python's text layer, so each is modelled here
  (POSIX flavour): a path is a root and a list of components; the file system is a tree
  of directories and files with its limits on the length of a name and of a path; a file
  holds bytes; a Python string is a list of code points. The file systems of the model
  have no symbolic links, and every directory in them may be searched and every file
  read. The argument is taken as the byte string the operating system receives.
\<close>

type_synonym byte = "8 word"

text \<open>
  A \<^verbatim>\<open>PurePosixPath\<close>: \<open>root\<close> is empty for a relative path and \<^verbatim>\<open>/\<close> or
  \<^verbatim>\<open>//\<close> for an absolute one.
\<close>

record path =
  root :: string
  parts :: "string list"

definition is_absolute :: "path \<Rightarrow> bool" where
  "is_absolute p = (root p \<noteq> [])"

text \<open>\<^verbatim>\<open>str.split('/')\<close>: the segments between slashes, empty ones included.\<close>

primrec split_sep :: "string \<Rightarrow> string list" where
  "split_sep [] = [[]]"
| "split_sep (c # cs) =
     (if c = CHR ''/'' then [] # split_sep cs
      else (case split_sep cs of [] \<Rightarrow> [[c]] | s # ss \<Rightarrow> (c # s) # ss))"

text \<open>
  How \<^verbatim>\<open>pathlib\<close> reads a string: leading slashes make the path absolute (exactly two
  are kept as the root \<^verbatim>\<open>//\<close>, any other number is the root \<^verbatim>\<open>/\<close>); empty
  segments and \<^verbatim>\<open>.\<close> segments are dropped; \<^verbatim>\<open>..\<close> segments are kept as they are.
\<close>

definition parse_path :: "string \<Rightarrow> path" where
  "parse_path s =
     \<lparr> root = (let n = length (takeWhile (\<lambda>c. c = CHR ''/'') s)
               in if n = 0 then [] else if n = 2 then ''//'' else ''/''),
       parts = filter (\<lambda>seg. seg \<noteq> [] \<and> seg \<noteq> ''.'') (split_sep s) \<rparr>"

text \<open>
  The operator \<^verbatim>\<open>/\<close> of \<^verbatim>\<open>pathlib\<close>: an absolute right operand replaces the left
  one; a relative one is appended to it.
\<close>

definition truediv :: "path \<Rightarrow> string \<Rightarrow> path" where
  "truediv p s =
     (let r = parse_path s
      in if is_absolute r then r
         else \<lparr> root = root p, parts = parts p @ parts r \<rparr>)"

text \<open>\<^verbatim>\<open>str(path)\<close>, the string handed to the operating system.\<close>

fun join_slash :: "string list \<Rightarrow> string" where
  "join_slash [] = []"
| "join_slash [a] = a"
| "join_slash (a # b # rest) = a @ ''/'' @ join_slash (b # rest)"

definition path_string :: "path \<Rightarrow> string" where
  "path_string p =
     (if root p = [] \<and> parts p = [] then ''.'' else root p @ join_slash (parts p))"

text \<open>
  The exceptions of the call. \<open>OSError_ENAMETOOLONG\<close> is \<^verbatim>\<open>OSError\<close> with errno 36,
  "File name too long".
\<close>

datatype read_error =
  FileNotFoundError | NotADirectoryError | IsADirectoryError | OSError_ENAMETOOLONG
  | ValueError | UnicodeDecodeError

datatype node = File "byte list" | Dir "(string \<times> node) list"

text \<open>
  The state of the machine: the tree, the working directory (the names from the root
  down), and the two limits of the file system, \<^verbatim>\<open>NAME_MAX\<close> on one component and
  \<^verbatim>\<open>PATH_MAX\<close> on the whole string (255 and 4096 on Linux).
\<close>

record os_state =
  fs_root :: node
  cwd :: "string list"
  name_max :: nat
  path_max :: nat

text \<open>
  Path lookup as the kernel does it, one component at a time. The stack holds the
  directories entered so far with their names, the current one first. A component after
  a regular file is an error; an empty component and \<^verbatim>\<open>.\<close> stay where they are;
  \<^verbatim>\<open>..\<close> leaves the current directory (the root is its own parent); a name longer
  than \<open>nmax\<close> is refused; any other name enters an entry of the current directory or
  is not there.
\<close>

fun walk :: "nat \<Rightarrow> (string \<times> node) list \<Rightarrow> string list \<Rightarrow> read_error + (string \<times> node) list" where
  "walk nmax stk [] = Inr stk"
| "walk nmax [] (c # cs) = Inl FileNotFoundError"
| "walk nmax ((nm, cur) # anc) (c # cs) =
     (case cur of
        File _ \<Rightarrow> Inl NotADirectoryError
      | Dir entries \<Rightarrow>
          if c = [] \<or> c = ''.'' then walk nmax ((nm, cur) # anc) cs
          else if c = ''..'' then walk nmax (if anc = [] then [(nm, cur)] else anc) cs
          else if nmax < length c then Inl OSError_ENAMETOOLONG
          else (case map_of entries c of
                  None \<Rightarrow> Inl FileNotFoundError
                | Some n \<Rightarrow> walk nmax ((c, n) # (nm, cur) # anc) cs))"

definition resolve :: "os_state \<Rightarrow> path \<Rightarrow> read_error + (string \<times> node) list" where
  "resolve os p =
     (if is_absolute p then walk (name_max os) [([], fs_root os)] (parts p)
      else (case walk (name_max os) [([], fs_root os)] (cwd os) of
              Inl e \<Rightarrow> Inl e
            | Inr stk \<Rightarrow> walk (name_max os) stk (parts p)))"

text \<open>The place a lookup ends at, as the names from the root down.\<close>

definition location :: "(string \<times> node) list \<Rightarrow> string list" where
  "location stk = tl (rev (map fst stk))"

definition realpath :: "os_state \<Rightarrow> path \<Rightarrow> read_error + string list" where
  "realpath os p = (case resolve os p of Inl e \<Rightarrow> Inl e | Inr stk \<Rightarrow> Inr (location stk))"

text \<open>
  Opening a path for reading and reading all of it. A string with a NUL byte is refused
  before any system call (\<^verbatim>\<open>ValueError\<close>: embedded null byte); a string that does not
  fit \<^verbatim>\<open>PATH_MAX\<close> with its terminator is refused by the system call before the lookup;
  a directory cannot be read.
\<close>

definition os_read :: "os_state \<Rightarrow> path \<Rightarrow> read_error + byte list" where
  "os_read os p =
     (if list_ex (\<lambda>seg. CHR 0x00 \<in> set seg) (parts p) then Inl ValueError
      else if path_max os \<le> length (path_string p) then Inl OSError_ENAMETOOLONG
      else (case resolve os p of
              Inl e \<Rightarrow> Inl e
            | Inr [] \<Rightarrow> Inl FileNotFoundError
            | Inr ((_, File bs) # _) \<Rightarrow> Inr bs
            | Inr ((_, Dir _) # _) \<Rightarrow> Inl IsADirectoryError))"

text \<open>
  The strict UTF-8 decoder, as a run over the bytes. Its state \<open>(need, acc, lo, hi)\<close>
  says that \<open>need\<close> continuation bytes are still expected, that \<open>acc\<close> holds the bits
  read so far, and that the next byte must lie in \<open>lo..hi\<close>; a step takes one byte and
  may complete a code point. The ranges are those of the well-formed byte sequences: no
  overlong form, no surrogate, nothing above U+10FFFF. \<open>None\<close> is
  \<^verbatim>\<open>UnicodeDecodeError\<close>.
\<close>

definition utf8_step :: "nat \<times> nat \<times> nat \<times> nat \<Rightarrow> nat \<Rightarrow> ((nat \<times> nat \<times> nat \<times> nat) \<times> nat option) option" where
  "utf8_step st b =
     (case st of (need, acc, lo, hi) \<Rightarrow>
        if need = 0 then
          (if b < 0x80 then Some ((0, 0, 0, 0), Some b)
           else if 0xC2 \<le> b \<and> b \<le> 0xDF then Some ((1, b - 0xC0, 0x80, 0xBF), None)
           else if b = 0xE0 then Some ((2, 0, 0xA0, 0xBF), None)
           else if b = 0xED then Some ((2, 0xD, 0x80, 0x9F), None)
           else if 0xE1 \<le> b \<and> b \<le> 0xEF then Some ((2, b - 0xE0, 0x80, 0xBF), None)
           else if b = 0xF0 then Some ((3, 0, 0x90, 0xBF), None)
           else if b = 0xF4 then Some ((3, 4, 0x80, 0x8F), None)
           else if 0xF1 \<le> b \<and> b \<le> 0xF3 then Some ((3, b - 0xF0, 0x80, 0xBF), None)
           else None)
        else if lo \<le> b \<and> b \<le> hi then
          (if need = 1 then Some ((0, 0, 0, 0), Some (acc * 64 + (b - 0x80)))
           else Some ((need - 1, acc * 64 + (b - 0x80), 0x80, 0xBF), None))
        else None)"

fun utf8_run :: "nat \<times> nat \<times> nat \<times> nat \<Rightarrow> nat list \<Rightarrow> nat list option" where
  "utf8_run st [] = (if fst st = 0 then Some [] else None)"
| "utf8_run st (b # bs) =
     (case utf8_step st b of
        None \<Rightarrow> None
      | Some (st', None) \<Rightarrow> utf8_run st' bs
      | Some (st', Some c) \<Rightarrow> map_option ((#) c) (utf8_run st' bs))"

text \<open>
  What every state of the decoder satisfies: while a continuation byte is expected, the
  upper bound of the next byte is at most \<open>0xBF\<close>.
\<close>

definition utf8_inv :: "nat \<times> nat \<times> nat \<times> nat \<Rightarrow> bool" where
  "utf8_inv st = (case st of (need, acc, lo, hi) \<Rightarrow> need = 0 \<or> hi \<le> 0xBF)"

definition utf8_decode :: "byte list \<Rightarrow> nat list option" where
  "utf8_decode bs = utf8_run (0, 0, 0, 0) (map unat bs)"

text \<open>
  The encoder of the same format, used to say what the decoder returns: the bytes of one
  code point, and the bytes of a text. A code point that can be encoded is below
  \<open>0x110000\<close> and no surrogate.
\<close>

definition utf8_encode :: "nat \<Rightarrow> nat list" where
  "utf8_encode cp =
     (if cp < 0x80 then [cp]
      else if cp < 0x800 then [0xC0 + cp div 64, 0x80 + cp mod 64]
      else if cp < 0x10000 then
        [0xE0 + cp div 4096, 0x80 + (cp div 64) mod 64, 0x80 + cp mod 64]
      else [0xF0 + cp div 262144, 0x80 + (cp div 4096) mod 64,
            0x80 + (cp div 64) mod 64, 0x80 + cp mod 64])"

definition scalar_value :: "nat \<Rightarrow> bool" where
  "scalar_value cp = (cp < 0x110000 \<and> \<not> (0xD800 \<le> cp \<and> cp \<le> 0xDFFF))"

definition encode_text :: "nat list \<Rightarrow> byte list" where
  "encode_text cps = map of_nat (concat (map utf8_encode cps))"

text \<open>
  Text mode with \<^verbatim>\<open>newline=None\<close>, the default of \<^verbatim>\<open>read_text\<close>: on reading,
  \<^verbatim>\<open>\r\n\<close> and a lone \<^verbatim>\<open>\r\<close> both become \<^verbatim>\<open>\n\<close>.
\<close>

fun universal_newlines :: "nat list \<Rightarrow> nat list" where
  "universal_newlines [] = []"
| "universal_newlines [c] = (if c = 13 then [10] else [c])"
| "universal_newlines (c # d # cs) =
     (if c = 13 then
        (if d = 10 then 10 # universal_newlines cs else 10 # universal_newlines (d # cs))
      else c # universal_newlines (d # cs))"

text \<open>
  Lines 14 to 17. \<^verbatim>\<open>DOCS_ROOT\<close> is \<^verbatim>\<open>Path(__file__).parent\<close>, the directory the
  module was loaded from: a parameter here.
\<close>

definition read_file :: "os_state \<Rightarrow> path \<Rightarrow> string \<Rightarrow> read_error + nat list" where
  "read_file os DOCS_ROOT relative_path =
     (let file_path = truediv DOCS_ROOT relative_path
      in case os_read os file_path of
           Inl e \<Rightarrow> Inl e
         | Inr bs \<Rightarrow>
             (case utf8_decode bs of
                None \<Rightarrow> Inl UnicodeDecodeError
              | Some text \<Rightarrow> Inr (universal_newlines text)))"

text \<open>
  A name that is one component of a path and nothing else, a path none of whose
  components holds a NUL byte, and a byte that occurs in no UTF-8 text.
\<close>

definition plain_name :: "string \<Rightarrow> bool" where
  "plain_name n =
     (n \<noteq> [] \<and> n \<noteq> ''.'' \<and> n \<noteq> ''..'' \<and> CHR ''/'' \<notin> set n \<and> CHR 0x00 \<notin> set n)"

definition has_nul :: "path \<Rightarrow> bool" where
  "has_nul p = list_ex (\<lambda>seg. CHR 0x00 \<in> set seg) (parts p)"

definition never_in_utf8 :: "byte \<Rightarrow> bool" where
  "never_in_utf8 b = (b = 0xC0 \<or> b = 0xC1 \<or> 0xF5 \<le> b)"

text \<open>
  A small installation: the repository at \<^verbatim>\<open>/repo\<close> with its \<^verbatim>\<open>docs\<close> directory
  (a page with a Windows line ending, a page with an accented letter and an old
  Macintosh line ending, a page saved as Latin-1, one saved as UTF-16, the macro module),
  a file beside that directory and one elsewhere on the machine; and a name of 256 bytes.
\<close>

definition docs_entries :: "(string \<times> node) list" where
  "docs_entries =
     [(''index.md'', File [0x68, 0x69, 0x0D, 0x0A]),
      (''cafe.md'', File [0x63, 0x61, 0x66, 0xC3, 0xA9, 0x0D, 0x21]),
      (''latin1.md'', File [0x63, 0x61, 0x66, 0xE9]),
      (''utf16.md'', File [0xFF, 0xFE, 0x68, 0x00, 0x69, 0x00]),
      (''main.py'', File [])]"

definition repo_entries :: "(string \<times> node) list" where
  "repo_entries =
     [(''docs'', Dir docs_entries),
      (''secret.txt'', File [0x6B, 0x65, 0x79])]"

definition root_entries :: "(string \<times> node) list" where
  "root_entries =
     [(''repo'', Dir repo_entries),
      (''etc'', Dir [(''passwd'', File [0x72, 0x6F, 0x6F, 0x74])])]"

definition example_os :: os_state where
  "example_os =
     \<lparr> fs_root = Dir root_entries, cwd = [''repo''], name_max = 255, path_max = 4096 \<rparr>"

definition example_docs_root :: path where
  "example_docs_root = \<lparr> root = ''/'', parts = [''repo'', ''docs''] \<rparr>"

definition long_name :: string where
  "long_name = replicate 256 CHR ''a''"

section \<open>Federation engine: merge and failure policy (specification, section 4.5)\<close>

text \<open>
  \<^verbatim>\<open>src/__init__.py\<close> imports \<^verbatim>\<open>execute_multi_collection\<close> from the module
  \<^verbatim>\<open>.multi_collection\<close>, which is not among the sources. The definitions of this
  section follow the words of the specification's section 4.5, steps 3 to 6.
\<close>

text \<open>
  Modelled from the spec: the ordering direction of a plan (section 3: the ordering key is
  taken ascending or descending); the plan model is not among the sources.
\<close>

datatype direction = Ascending | Descending

text \<open>
  Modelled from the spec: a result row as the merge step sees it, with its record
  identifier, its value of the plan's ordering key (the similarity score or the named
  field) and its projected columns. Identifiers and key values come from linear orders;
  the row type of the executor is not among the sources.
\<close>

record ('i, 'k) row =
  rid :: 'i
  order_key :: 'k
  columns :: "(string \<times> string) list"


text \<open>
  Modelled from the spec: the order the merge is keyed by, "the plan's ordering key ...;
  tie-break by record identifier for determinism" (step 5). The comparison of the engine
  is not among the sources.
\<close>

definition precedes :: "direction \<Rightarrow> ('i::linorder, 'k::linorder) row \<Rightarrow> ('i, 'k) row \<Rightarrow> bool" where
  "precedes d a b =
     (if order_key a = order_key b then rid a \<le> rid b
      else (case d of Ascending \<Rightarrow> order_key a < order_key b
                    | Descending \<Rightarrow> order_key b < order_key a))"

text \<open>
  Modelled from the spec: the requested ordering on the key alone, without the tie-break
  (section 8: "sorted by the requested ordering key"); not among the sources.
\<close>

definition key_precedes :: "direction \<Rightarrow> ('i, 'k::linorder) row \<Rightarrow> ('i, 'k) row \<Rightarrow> bool" where
  "key_precedes d a b =
     (case d of Ascending \<Rightarrow> order_key a \<le> order_key b
              | Descending \<Rightarrow> order_key b \<le> order_key a)"






















section \<open>Properties of the package entry point\<close>

lemma from_import_Inr: "from_import env m names = Inr b \<Longrightarrow> b = names"
  by (auto simp: from_import_def split: module_outcome.splits if_splits)

lemma init_package_flag:
  assumes "init_package env = Inr pkg"
  shows "MULTI_COLLECTION_AVAILABLE pkg = multi_collection_importable env"
  using assms
  by (auto simp: init_package_def try_multi_collection_def multi_collection_importable_def
      split: sum.splits if_splits prod.splits dest: from_import_Inr)

lemma init_package_all:
  assumes "init_package env = Inr pkg"
  shows "all_names pkg =
           (if MULTI_COLLECTION_AVAILABLE pkg then core_exports @ multi_collection_exports
            else core_exports)"
  using assms
  by (auto simp: init_package_def split: sum.splits if_splits prod.splits)

lemma disjoint_exports: "set multi_collection_exports \<inter> set core_exports = {}"
  by (simp add: multi_collection_exports_def core_exports_def)

lemma run_core:
  "core_importable env \<Longrightarrow>
   run_imports env core_imports ns = Inr (ns @ concat (map snd core_imports))"
  by (simp add: core_importable_def core_imports_def)

lemma core_exports_bound: "set core_exports \<subseteq> set (concat (map snd core_imports))"
  by (simp add: core_exports_def core_imports_def)

lemma try_multi_collection_error:
  "multi_collection_import_error env \<Longrightarrow>
   \<exists>ns'. try_multi_collection env ns = Inr (ns', False) \<and> set ns \<subseteq> set ns'"
  by (auto simp: multi_collection_import_error_def try_multi_collection_def split: sum.splits)

lemma env_core_importable: "core_importable env_core"
  by (simp add: core_importable_def core_imports_def env_core_def from_import_def)

lemma env_full_importable: "core_importable env_full"
  by (simp add: core_importable_def core_imports_def env_full_def env_core_def from_import_def)

lemma env_core_import_error: "multi_collection_import_error env_core"
  by (simp add: multi_collection_import_error_def env_core_def from_import_def)

lemma env_core_not_importable: "\<not> multi_collection_importable env_core"
  by (simp add: multi_collection_importable_def env_core_def from_import_def)

lemma env_full_multi: "multi_collection_importable env_full"
  by (simp add: multi_collection_importable_def env_full_def from_import_def
      multi_collection_imports_def adapters_imports_def)

lemma init_env_core: "init_package env_core = Inr pkg_core"
  by (simp add: init_package_def run_core[OF env_core_importable] try_multi_collection_def
      env_core_def from_import_def bound_on_failure_def pkg_core_def)

lemma init_env_full: "init_package env_full = Inr pkg_full"
  by (simp add: init_package_def run_core[OF env_full_importable] try_multi_collection_def
      env_full_def from_import_def pkg_full_def multi_collection_imports_def adapters_imports_def
      multi_collection_exports_def)

text \<open>
  Claim C8. Whenever the package imports, the flag \<^verbatim>\<open>_MULTI_COLLECTION_AVAILABLE\<close>
  is true exactly when both guarded import statements succeed; \<^verbatim>\<open>__all__\<close> is a
  function of that flag alone (the core list, extended by the six names when it is set);
  and each of the six multi-collection names is listed in \<^verbatim>\<open>__all__\<close> if and only if
  the guarded imports succeed. The flag is computed once, by the script, and stored in
  the module object.
\<close>

theorem multi_collection_exports_iff_importable:
  assumes "init_package env = Inr pkg"
  shows "MULTI_COLLECTION_AVAILABLE pkg = multi_collection_importable env
       \<and> all_names pkg = (if MULTI_COLLECTION_AVAILABLE pkg
                          then core_exports @ multi_collection_exports else core_exports)
       \<and> (\<forall>n \<in> set multi_collection_exports.
             (n \<in> set (all_names pkg)) = multi_collection_importable env)"
  using init_package_flag[OF assms] init_package_all[OF assms] disjoint_exports
  by auto

theorem multi_collection_exports_iff_importable_witness:
  "init_package env_full = Inr pkg_full
   \<and> MULTI_COLLECTION_AVAILABLE pkg_full = multi_collection_importable env_full
   \<and> multi_collection_importable env_full
   \<and> ''execute_multi_collection'' \<in> set (all_names pkg_full)
   \<and> init_package env_core = Inr pkg_core
   \<and> MULTI_COLLECTION_AVAILABLE pkg_core = multi_collection_importable env_core
   \<and> \<not> multi_collection_importable env_core
   \<and> ''execute_multi_collection'' \<notin> set (all_names pkg_core)"
proof -
  have mem: "''execute_multi_collection'' \<in> set multi_collection_exports"
    by (simp add: multi_collection_exports_def)
  note full = multi_collection_exports_iff_importable[OF init_env_full]
  note core = multi_collection_exports_iff_importable[OF init_env_core]
  from full mem env_full_multi have "''execute_multi_collection'' \<in> set (all_names pkg_full)"
    by blast
  moreover from core mem env_core_not_importable
  have "''execute_multi_collection'' \<notin> set (all_names pkg_core)"
    by blast
  ultimately show ?thesis
    using full core init_env_full init_env_core env_full_multi env_core_not_importable by blast
qed

text \<open>
  Claim C9, as amended. If the unguarded imports succeed and the guarded block fails with
  an exception of class \<^verbatim>\<open>ImportError\<close>, the package still imports: the flag is
  false, \<^verbatim>\<open>__all__\<close> is exactly the list of core names, unchanged, every one of them
  is bound in the module, and that list has twelve distinct entries.
\<close>

theorem failed_optional_import_keeps_core_exports:
  assumes "core_importable env" and "multi_collection_import_error env"
  shows "\<exists>pkg. init_package env = Inr pkg
           \<and> \<not> MULTI_COLLECTION_AVAILABLE pkg
           \<and> all_names pkg = core_exports
           \<and> set core_exports \<subseteq> set (namespace pkg)
           \<and> length core_exports = 12 \<and> distinct core_exports"
proof -
  let ?ns = "''annotations'' # concat (map snd core_imports)"
  from try_multi_collection_error[OF assms(2)]
  obtain ns' where t: "try_multi_collection env ?ns = Inr (ns', False)"
    and sub: "set ?ns \<subseteq> set ns'"
    by blast
  have "init_package env =
          Inr \<lparr> namespace = ns', MULTI_COLLECTION_AVAILABLE = False, all_names = core_exports \<rparr>"
    by (simp add: init_package_def run_core[OF assms(1)] t)
  moreover have "set core_exports \<subseteq> set ns'"
    using core_exports_bound sub by auto
  moreover have "length core_exports = 12 \<and> distinct core_exports"
    by (simp add: core_exports_def)
  ultimately show ?thesis by simp
qed

theorem failed_optional_import_keeps_core_exports_witness:
  "core_importable env_core \<and> multi_collection_import_error env_core
   \<and> (\<exists>pkg. init_package env_core = Inr pkg
           \<and> \<not> MULTI_COLLECTION_AVAILABLE pkg
           \<and> all_names pkg = core_exports
           \<and> set core_exports \<subseteq> set (namespace pkg)
           \<and> length core_exports = 12 \<and> distinct core_exports)"
  using failed_optional_import_keeps_core_exports[OF env_core_importable env_core_import_error]
    env_core_importable env_core_import_error
  by blast

text \<open>
  The claim as written counts eleven core names. Without the optional modules the
  script leaves twelve names in \<^verbatim>\<open>__all__\<close>, the twelve the claim itself lists.
\<close>

theorem core_exports_not_eleven:
  "multi_collection_import_error env_core
   \<and> init_package env_core = Inr pkg_core
   \<and> all_names pkg_core = core_exports
   \<and> length (all_names pkg_core) = 12
   \<and> length (all_names pkg_core) \<noteq> 11"
  using env_core_import_error init_env_core
  by (simp add: pkg_core_def core_exports_def)

section \<open>Properties of the documentation macro\<close>

lemma split_sep_no_slash: "CHR ''/'' \<notin> set s \<Longrightarrow> split_sep s = [s]"
  by (induction s) auto

lemma split_sep_append_slash:
  "CHR ''/'' \<notin> set a \<Longrightarrow> split_sep (a @ CHR ''/'' # b) = a # split_sep b"
  by (induction a) auto

lemma parse_path_plain:
  "plain_name n \<Longrightarrow> parse_path n = \<lparr> root = [], parts = [n] \<rparr>"
  by (cases n) (auto simp: plain_name_def parse_path_def split_sep_no_slash)

lemma parse_path_dotdot:
  assumes "plain_name n"
  shows "parse_path (''../'' @ n) = \<lparr> root = [], parts = [''..'', n] \<rparr>"
proof -
  have "split_sep (''..'' @ CHR ''/'' # n) = ''..'' # split_sep n"
    by (rule split_sep_append_slash) simp
  moreover have "split_sep n = [n]"
    using assms by (simp add: plain_name_def split_sep_no_slash)
  ultimately show ?thesis
    using assms by (simp add: parse_path_def plain_name_def)
qed

lemma walk_append:
  "walk nmax stk (ps @ qs) =
     (case walk nmax stk ps of Inl e \<Rightarrow> Inl e | Inr stk' \<Rightarrow> walk nmax stk' qs)"
  by (induction nmax stk ps rule: walk.induct) (auto split: node.splits option.splits)

lemma resolve_truediv_relative:
  assumes "\<not> is_absolute (parse_path rel)"
  shows "resolve os (truediv R rel) =
           (case resolve os R of
              Inl e \<Rightarrow> Inl e
            | Inr stk \<Rightarrow> walk (name_max os) stk (parts (parse_path rel)))"
  using assms
  by (auto simp: resolve_def truediv_def Let_def walk_append is_absolute_def split: sum.splits)

lemma truediv_absolute:
  "is_absolute (parse_path rel) \<Longrightarrow> truediv R rel = parse_path rel"
  by (simp add: truediv_def)

lemma read_file_absolute:
  "is_absolute (parse_path rel) \<Longrightarrow> read_file os R rel = read_file os R' rel"
  by (simp add: read_file_def truediv_absolute)

lemma read_file_Inr_iff:
  "read_file os R rel = Inr s \<longleftrightarrow>
     (\<exists>bs cps. os_read os (truediv R rel) = Inr bs \<and> utf8_decode bs = Some cps
        \<and> s = universal_newlines cps)"
  by (auto simp: read_file_def Let_def split: sum.splits option.splits)

lemma read_file_os_error:
  "os_read os (truediv R rel) = Inl e \<Longrightarrow> read_file os R rel = Inl e"
  by (simp add: read_file_def)

lemma read_file_decode_error:
  "os_read os (truediv R rel) = Inr bs \<Longrightarrow> utf8_decode bs = None \<Longrightarrow>
   read_file os R rel = Inl UnicodeDecodeError"
  by (simp add: read_file_def)

lemma has_nul_truediv_plain:
  "\<not> has_nul R \<Longrightarrow> plain_name n \<Longrightarrow> \<not> has_nul (truediv R n)"
  by (simp add: has_nul_def truediv_def parse_path_plain plain_name_def is_absolute_def)

lemma has_nul_truediv_dotdot:
  "\<not> has_nul R \<Longrightarrow> plain_name n \<Longrightarrow> \<not> has_nul (truediv R (''../'' @ n))"
  by (simp add: has_nul_def truediv_def parse_path_dotdot plain_name_def is_absolute_def
      del: append.simps)

lemma os_read_no_nul:
  "\<not> has_nul p \<Longrightarrow> length (path_string p) < path_max os \<Longrightarrow>
   os_read os p =
     (case resolve os p of
        Inl e \<Rightarrow> Inl e
      | Inr [] \<Rightarrow> Inl FileNotFoundError
      | Inr ((_, File bs) # _) \<Rightarrow> Inr bs
      | Inr ((_, Dir _) # _) \<Rightarrow> Inl IsADirectoryError)"
  by (simp add: os_read_def has_nul_def)

lemma plain_not_absolute: "plain_name n \<Longrightarrow> \<not> is_absolute (parse_path n)"
  by (simp add: parse_path_plain is_absolute_def)

lemma dotdot_not_absolute: "plain_name n \<Longrightarrow> \<not> is_absolute (parse_path (''../'' @ n))"
  by (simp add: parse_path_dotdot is_absolute_def del: append.simps)

lemma read_file_missing:
  assumes "resolve os R = Inr ((d, Dir es) # anc)" "map_of es n = None" "plain_name n"
    "\<not> has_nul R" "length n \<le> name_max os" "length (path_string (truediv R n)) < path_max os"
  shows "read_file os R n = Inl FileNotFoundError"
proof -
  have np: "n \<noteq> ''..''" "n \<noteq> ''.''" "n \<noteq> []" using assms(3) by (simp_all add: plain_name_def)
  have "resolve os (truediv R n) = Inl FileNotFoundError"
    using assms(1,2,5) np
    by (simp add: resolve_truediv_relative[OF plain_not_absolute[OF assms(3)]]
        parse_path_plain[OF assms(3)])
  then have "os_read os (truediv R n) = Inl FileNotFoundError"
    using has_nul_truediv_plain[OF assms(4,3)] assms(6) by (simp add: os_read_no_nul)
  then show ?thesis by (rule read_file_os_error)
qed

lemma read_file_name_too_long:
  assumes "resolve os R = Inr ((d, Dir es) # anc)" "plain_name n"
    "\<not> has_nul R" "name_max os < length n"
  shows "read_file os R n = Inl OSError_ENAMETOOLONG"
proof -
  have np: "n \<noteq> ''..''" "n \<noteq> ''.''" "n \<noteq> []" using assms(2) by (simp_all add: plain_name_def)
  have r: "resolve os (truediv R n) = Inl OSError_ENAMETOOLONG"
    using assms(1,4) np
    by (simp add: resolve_truediv_relative[OF plain_not_absolute[OF assms(2)]]
        parse_path_plain[OF assms(2)])
  have "\<not> has_nul (truediv R n)" by (rule has_nul_truediv_plain[OF assms(3,2)])
  then have "os_read os (truediv R n) = Inl OSError_ENAMETOOLONG"
    using r by (simp add: os_read_def has_nul_def)
  then show ?thesis by (rule read_file_os_error)
qed

lemma location_Cons2:
  "location ((n, x) # (m, y) # anc) = location ((m, y) # anc) @ [n]"
  by (cases "rev (map fst anc)") (simp_all add: location_def)

lemma dotdot_resolve:
  assumes "resolve os R = Inr ((d, Dir es) # (pn, Dir ps) # anc)" "map_of ps n = Some f"
    "plain_name n" "length n \<le> name_max os"
  shows "resolve os (truediv R (''../'' @ n)) = Inr ((n, f) # (pn, Dir ps) # anc)"
proof -
  have np: "n \<noteq> ''..''" "n \<noteq> ''.''" "n \<noteq> []" using assms(3) by (simp_all add: plain_name_def)
  show ?thesis
    using assms(1,2,4) np
    by (simp add: resolve_truediv_relative[OF dotdot_not_absolute[OF assms(3)]]
        parse_path_dotdot[OF assms(3)] del: append.simps)
qed

lemma dotdot_escapes:
  assumes r: "resolve os R = Inr ((d, Dir es) # (pn, Dir ps) # anc)"
    and f: "map_of ps n = Some (File bs)" and pl: "plain_name n" and nn: "\<not> has_nul R"
    and nd: "n \<noteq> d" and dec: "utf8_decode bs = Some cps"
    and nl: "length n \<le> name_max os"
    and pm: "length (path_string (truediv R (''../'' @ n))) < path_max os"
  shows "read_file os R (''../'' @ n) = Inr (universal_newlines cps)"
    and "realpath os R = Inr (location ((pn, Dir ps) # anc) @ [d])"
    and "realpath os (truediv R (''../'' @ n)) = Inr (location ((pn, Dir ps) # anc) @ [n])"
    and "\<not> prefix (location ((pn, Dir ps) # anc) @ [d]) (location ((pn, Dir ps) # anc) @ [n])"
proof -
  note res = dotdot_resolve[OF r f pl nl]
  have "os_read os (truediv R (''../'' @ n)) = Inr bs"
    using has_nul_truediv_dotdot[OF nn pl] res pm by (simp add: os_read_no_nul)
  then show "read_file os R (''../'' @ n) = Inr (universal_newlines cps)"
    using dec by (simp add: read_file_def)
  show "realpath os R = Inr (location ((pn, Dir ps) # anc) @ [d])"
    using r by (simp add: realpath_def location_Cons2)
  show "realpath os (truediv R (''../'' @ n)) = Inr (location ((pn, Dir ps) # anc) @ [n])"
    using res by (simp add: realpath_def location_Cons2)
  show "\<not> prefix (location ((pn, Dir ps) # anc) @ [d]) (location ((pn, Dir ps) # anc) @ [n])"
    using nd by simp
qed

subsection \<open>Newline translation\<close>

lemma universal_newlines_no_cr: "13 \<notin> set (universal_newlines cs)"
  by (induction cs rule: universal_newlines.induct) auto

lemma universal_newlines_id: "13 \<notin> set cs \<Longrightarrow> universal_newlines cs = cs"
  by (induction cs rule: universal_newlines.induct) auto

lemma universal_newlines_Cons:
  "c \<noteq> 13 \<Longrightarrow> universal_newlines (c # cs) = c # universal_newlines cs"
  by (cases cs) auto

lemma universal_newlines_crlf:
  "universal_newlines (13 # 10 # cs) = 10 # universal_newlines cs"
  by simp

lemma universal_newlines_cr:
  "cs = [] \<or> hd cs \<noteq> 10 \<Longrightarrow> universal_newlines (13 # cs) = 10 # universal_newlines cs"
  by (cases cs) auto

lemma universal_newlines_append_cr:
  "universal_newlines (xs @ 13 # rest) = universal_newlines xs @ universal_newlines (13 # rest)"
proof (induction xs rule: universal_newlines.induct)
  case 1
  show ?case by simp
next
  case (2 c)
  show ?case by (cases rest) auto
next
  case (3 c d cs)
  then show ?case by (cases cs) auto
qed

subsection \<open>The decoder\<close>

lemma utf8_step_ascii: "b < 0x80 \<Longrightarrow> utf8_step (0, 0, 0, 0) b = Some ((0, 0, 0, 0), Some b)"
  by (simp add: utf8_step_def)

lemma utf8_run_ascii:
  "\<forall>b \<in> set bs. b < 0x80 \<Longrightarrow> utf8_run (0, 0, 0, 0) bs = Some bs"
  by (induction bs) (simp_all add: utf8_step_ascii)

lemma utf8_step_inv:
  "utf8_step st b = Some (st', out) \<Longrightarrow> utf8_inv st'"
  by (cases st) (auto simp: utf8_step_def utf8_inv_def split: if_splits)

lemma utf8_step_never:
  assumes "utf8_inv st" "b = 0xC0 \<or> b = 0xC1 \<or> 0xF5 \<le> b"
  shows "utf8_step st b = None"
proof -
  obtain need acc lo hi where st: "st = (need, acc, lo, hi)" by (cases st) auto
  show ?thesis
  proof (cases "need = 0")
    case True
    with assms(2) show ?thesis unfolding st by (auto simp: utf8_step_def)
  next
    case False
    with assms(1) have "hi \<le> 0xBF" by (simp add: st utf8_inv_def)
    with assms(2) have "\<not> b \<le> hi" by auto
    with False show ?thesis unfolding st by (simp add: utf8_step_def)
  qed
qed

lemma utf8_run_never:
  "b \<in> set bs \<Longrightarrow> b = 0xC0 \<or> b = 0xC1 \<or> 0xF5 \<le> b \<Longrightarrow> utf8_inv st \<Longrightarrow>
   utf8_run st bs = None"
proof (induction bs arbitrary: st)
  case Nil
  then show ?case by simp
next
  case (Cons a bs)
  show ?case
  proof (cases "a = b")
    case True
    then show ?thesis using utf8_step_never[OF Cons.prems(3,2)] by simp
  next
    case False
    with Cons.prems(1) have mem: "b \<in> set bs" by simp
    show ?thesis
    proof (cases "utf8_step st a")
      case None
      then show ?thesis by simp
    next
      case (Some r)
      obtain st' out where r: "r = (st', out)" by (cases r) auto
      from Some r have "utf8_inv st'" using utf8_step_inv by blast
      from Cons.IH[OF mem Cons.prems(2) this] Some r show ?thesis
        by (cases out) simp_all
    qed
  qed
qed

lemma utf8_inv_start: "utf8_inv (0, 0, 0, 0)"
  by (simp add: utf8_inv_def)

lemma never_in_utf8_unat:
  "never_in_utf8 b \<Longrightarrow> unat b = 0xC0 \<or> unat b = 0xC1 \<or> 0xF5 \<le> unat b"
  unfolding never_in_utf8_def by (auto simp: word_le_nat_alt)

lemma utf8_decode_never:
  assumes "b \<in> set bs" "never_in_utf8 b"
  shows "utf8_decode bs = None"
  unfolding utf8_decode_def
  by (rule utf8_run_never[OF _ never_in_utf8_unat[OF assms(2)] utf8_inv_start])
     (use assms(1) in simp)

lemma div_4096: "(cp::nat) div 4096 = cp div 64 div 64"
proof -
  have "cp div 4096 = cp div (64 * 64)" by simp
  then show ?thesis by (simp only: div_mult2_eq)
qed

lemma div_262144: "(cp::nat) div 262144 = cp div 64 div 64 div 64"
proof -
  have "cp div 262144 = cp div (64 * (64 * 64))" by simp
  then show ?thesis by (simp only: div_mult2_eq)
qed

lemma utf8_run_encode2:
  assumes "0x80 \<le> cp" "cp < 0x800"
  shows "utf8_run (0, 0, 0, 0) ([0xC0 + cp div 64, 0x80 + cp mod 64] @ rest)
           = map_option ((#) cp) (utf8_run (0, 0, 0, 0) rest)"
proof -
  define h where "h = cp div 64"
  define l where "l = cp mod 64"
  have cp: "cp = h * 64 + l" unfolding h_def l_def by simp
  have lb: "l < 64" unfolding l_def by simp
  have h: "2 \<le> h" "h \<le> 31" using cp lb assms by linarith+
  have s1: "utf8_step (0, 0, 0, 0) (0xC0 + h) = Some ((1, h, 0x80, 0xBF), None)"
    using h by (simp add: utf8_step_def)
  have s2: "utf8_step (1, h, 0x80, 0xBF) (0x80 + l) = Some ((0, 0, 0, 0), Some (h * 64 + l))"
    using lb by (simp add: utf8_step_def)
  have "utf8_run (0, 0, 0, 0) ([0xC0 + h, 0x80 + l] @ rest)
          = map_option ((#) (h * 64 + l)) (utf8_run (0, 0, 0, 0) rest)"
    by (simp only: append_Cons append_Nil utf8_run.simps(2) option.case prod.case s1 s2)
  then show ?thesis unfolding cp[symmetric] unfolding h_def l_def .
qed

lemma utf8_run_encode3:
  assumes "0x800 \<le> cp" "cp < 0x10000" "\<not> (0xD800 \<le> cp \<and> cp \<le> 0xDFFF)"
  shows "utf8_run (0, 0, 0, 0)
           ([0xE0 + cp div 4096, 0x80 + (cp div 64) mod 64, 0x80 + cp mod 64] @ rest)
           = map_option ((#) cp) (utf8_run (0, 0, 0, 0) rest)"
proof -
  define q where "q = cp div 64"
  define h where "h = q div 64"
  define m where "m = q mod 64"
  define l where "l = cp mod 64"
  have cq: "cp = q * 64 + l" unfolding q_def l_def by simp
  have qh: "q = h * 64 + m" unfolding h_def m_def by simp
  have cp: "cp = (h * 64 + m) * 64 + l" using cq qh by simp
  have mb: "m < 64" "l < 64" unfolding m_def l_def by simp_all
  have hb: "h \<le> 15" using cq qh mb assms by linarith
  have e0: "h = 0 \<Longrightarrow> 32 \<le> m" using cq qh mb assms by linarith
  have ed: "h = 13 \<Longrightarrow> m \<le> 31" using cq qh mb assms by linarith
  have "\<exists>lo hi. utf8_step (0, 0, 0, 0) (0xE0 + h) = Some ((2, h, lo, hi), None)
          \<and> lo \<le> 0x80 + m \<and> 0x80 + m \<le> hi"
  proof (cases "h = 0")
    case True
    then show ?thesis using e0 mb by (simp add: utf8_step_def)
  next
    case h0: False
    show ?thesis
    proof (cases "h = 13")
      case True
      then show ?thesis using ed by (simp add: utf8_step_def)
    next
      case False
      then show ?thesis using h0 hb mb by (simp add: utf8_step_def)
    qed
  qed
  then obtain lo hi where s1: "utf8_step (0, 0, 0, 0) (0xE0 + h) = Some ((2, h, lo, hi), None)"
    and r: "lo \<le> 0x80 + m" "0x80 + m \<le> hi" by blast
  have s2: "utf8_step (2, h, lo, hi) (0x80 + m) = Some ((1, h * 64 + m, 0x80, 0xBF), None)"
    using r by (simp add: utf8_step_def)
  have s3: "utf8_step (1, h * 64 + m, 0x80, 0xBF) (0x80 + l)
              = Some ((0, 0, 0, 0), Some ((h * 64 + m) * 64 + l))"
    using mb by (simp add: utf8_step_def)
  have "utf8_run (0, 0, 0, 0) ([0xE0 + h, 0x80 + m, 0x80 + l] @ rest)
          = map_option ((#) ((h * 64 + m) * 64 + l)) (utf8_run (0, 0, 0, 0) rest)"
    by (simp only: append_Cons append_Nil utf8_run.simps(2) option.case prod.case s1 s2 s3)
  then show ?thesis
    unfolding cp[symmetric] unfolding h_def m_def l_def q_def div_4096 .
qed

lemma utf8_run_encode4:
  assumes "0x10000 \<le> cp" "cp < 0x110000"
  shows "utf8_run (0, 0, 0, 0)
           ([0xF0 + cp div 262144, 0x80 + (cp div 4096) mod 64,
             0x80 + (cp div 64) mod 64, 0x80 + cp mod 64] @ rest)
           = map_option ((#) cp) (utf8_run (0, 0, 0, 0) rest)"
proof -
  define q where "q = cp div 64"
  define p where "p = q div 64"
  define h where "h = p div 64"
  define k where "k = p mod 64"
  define m where "m = q mod 64"
  define l where "l = cp mod 64"
  have cq: "cp = q * 64 + l" unfolding q_def l_def by simp
  have qp: "q = p * 64 + m" unfolding p_def m_def by simp
  have ph: "p = h * 64 + k" unfolding h_def k_def by simp
  have cp: "cp = ((h * 64 + k) * 64 + m) * 64 + l" using cq qp ph by simp
  have mb: "k < 64" "m < 64" "l < 64" unfolding k_def m_def l_def by simp_all
  have hb: "h \<le> 4" using cq qp ph mb assms by linarith
  have f0: "h = 0 \<Longrightarrow> 16 \<le> k" using cq qp ph mb assms by linarith
  have f4: "h = 4 \<Longrightarrow> k \<le> 15" using cq qp ph mb assms by linarith
  have "\<exists>lo hi. utf8_step (0, 0, 0, 0) (0xF0 + h) = Some ((3, h, lo, hi), None)
          \<and> lo \<le> 0x80 + k \<and> 0x80 + k \<le> hi"
  proof (cases "h = 0")
    case True
    then show ?thesis using f0 mb by (simp add: utf8_step_def)
  next
    case h0: False
    show ?thesis
    proof (cases "h = 4")
      case True
      then show ?thesis using f4 by (simp add: utf8_step_def)
    next
      case False
      then show ?thesis using h0 hb mb by (simp add: utf8_step_def)
    qed
  qed
  then obtain lo hi where s1: "utf8_step (0, 0, 0, 0) (0xF0 + h) = Some ((3, h, lo, hi), None)"
    and r: "lo \<le> 0x80 + k" "0x80 + k \<le> hi" by blast
  have s2: "utf8_step (3, h, lo, hi) (0x80 + k) = Some ((2, h * 64 + k, 0x80, 0xBF), None)"
    using r by (simp add: utf8_step_def)
  have s3: "utf8_step (2, h * 64 + k, 0x80, 0xBF) (0x80 + m)
              = Some ((1, (h * 64 + k) * 64 + m, 0x80, 0xBF), None)"
    using mb by (simp add: utf8_step_def)
  have s4: "utf8_step (1, (h * 64 + k) * 64 + m, 0x80, 0xBF) (0x80 + l)
              = Some ((0, 0, 0, 0), Some (((h * 64 + k) * 64 + m) * 64 + l))"
    using mb by (simp add: utf8_step_def)
  have "utf8_run (0, 0, 0, 0) ([0xF0 + h, 0x80 + k, 0x80 + m, 0x80 + l] @ rest)
          = map_option ((#) (((h * 64 + k) * 64 + m) * 64 + l)) (utf8_run (0, 0, 0, 0) rest)"
    by (simp only: append_Cons append_Nil utf8_run.simps(2) option.case prod.case s1 s2 s3 s4)
  then show ?thesis
    unfolding cp[symmetric] unfolding h_def k_def m_def l_def p_def q_def div_4096 div_262144 .
qed

lemma utf8_run_encode:
  assumes "scalar_value cp"
  shows "utf8_run (0, 0, 0, 0) (utf8_encode cp @ rest)
           = map_option ((#) cp) (utf8_run (0, 0, 0, 0) rest)"
proof -
  consider "cp < 0x80" | "0x80 \<le> cp" "cp < 0x800" | "0x800 \<le> cp" "cp < 0x10000"
    | "0x10000 \<le> cp" by linarith
  then show ?thesis
  proof cases
    case 1
    then show ?thesis by (simp add: utf8_encode_def utf8_step_ascii)
  next
    case 2
    then show ?thesis using utf8_run_encode2[OF 2, of rest] by (simp add: utf8_encode_def)
  next
    case 3
    have "\<not> (0xD800 \<le> cp \<and> cp \<le> 0xDFFF)" using assms by (simp add: scalar_value_def)
    from utf8_run_encode3[OF 3 this, of rest] 3 show ?thesis by (simp add: utf8_encode_def)
  next
    case 4
    have "cp < 0x110000" using assms by (simp add: scalar_value_def)
    from utf8_run_encode4[OF 4 this, of rest] 4 show ?thesis by (simp add: utf8_encode_def)
  qed
qed

lemma utf8_encode_bytes:
  assumes "scalar_value cp" "b \<in> set (utf8_encode cp)"
  shows "b < 256"
proof -
  define q where "q = cp div 64"
  define p where "p = q div 64"
  define h where "h = p div 64"
  have cq: "cp = q * 64 + cp mod 64" unfolding q_def by simp
  have qp: "q = p * 64 + q mod 64" unfolding p_def by simp
  have ph: "p = h * 64 + p mod 64" unfolding h_def by simp
  have mb: "cp mod 64 < 64" "q mod 64 < 64" "p mod 64 < 64" by simp_all
  have c: "cp < 0x110000" using assms(1) by (simp add: scalar_value_def)
  have b1: "cp < 0x800 \<Longrightarrow> q \<le> 31" using cq mb by linarith
  have b2: "cp < 0x10000 \<Longrightarrow> p \<le> 15" using cq qp mb by linarith
  have b3: "h \<le> 4" using cq qp ph mb c by linarith
  have e: "utf8_encode cp =
     (if cp < 0x80 then [cp]
      else if cp < 0x800 then [0xC0 + q, 0x80 + cp mod 64]
      else if cp < 0x10000 then [0xE0 + p, 0x80 + q mod 64, 0x80 + cp mod 64]
      else [0xF0 + h, 0x80 + p mod 64, 0x80 + q mod 64, 0x80 + cp mod 64])"
    unfolding utf8_encode_def div_4096 div_262144 q_def p_def h_def ..
  show ?thesis
  proof (cases "cp < 0x80")
    case True
    then show ?thesis using assms(2) e by simp
  next
    case n1: False
    show ?thesis
    proof (cases "cp < 0x800")
      case True
      then show ?thesis using assms(2) e n1 b1 mb by auto
    next
      case n2: False
      show ?thesis
      proof (cases "cp < 0x10000")
        case True
        then show ?thesis using assms(2) e n1 n2 b2 mb by auto
      next
        case False
        then show ?thesis using assms(2) e n1 n2 b3 mb by auto
      qed
    qed
  qed
qed

lemma unat_of_nat_byte: "b < 256 \<Longrightarrow> unat (of_nat b :: byte) = b"
  by (simp add: unat_of_nat)

lemma utf8_run_encode_text:
  "\<forall>cp \<in> set cps. scalar_value cp \<Longrightarrow>
   utf8_run (0, 0, 0, 0) (concat (map utf8_encode cps)) = Some cps"
proof (induction cps)
  case Nil
  show ?case by simp
next
  case (Cons cp cps)
  then show ?case using utf8_run_encode[of cp "concat (map utf8_encode cps)"] by simp
qed

lemma utf8_decode_encode_text:
  assumes "\<forall>cp \<in> set cps. scalar_value cp"
  shows "utf8_decode (encode_text cps) = Some cps"
proof -
  have "\<forall>b \<in> set (concat (map utf8_encode cps)). b < 256"
    using assms utf8_encode_bytes by auto
  then have "map (\<lambda>b. unat (of_nat b :: byte)) (concat (map utf8_encode cps))
               = concat (map utf8_encode cps)"
    by (intro map_idI) (auto intro: unat_of_nat_byte)
  then have "map unat (map of_nat (concat (map utf8_encode cps)) :: byte list)
               = concat (map utf8_encode cps)"
    by (simp add: comp_def)
  then show ?thesis
    unfolding utf8_decode_def encode_text_def using utf8_run_encode_text[OF assms] by simp
qed


subsection \<open>The macro\<close>

text \<open>
  Claim C10, as amended. For every machine, every \<^verbatim>\<open>DOCS_ROOT\<close> and every argument:
  \<^verbatim>\<open>read_file\<close> returns a text exactly when the path \<^verbatim>\<open>DOCS_ROOT / relative_path\<close>
  can be read and its bytes decode, and the text is the decoded one after newline
  translation; an error of the lookup and a decoding error are the result of the call,
  never a default. A file that holds a byte no UTF-8 text contains fails to decode; a
  file that holds the UTF-8 encoding of a text, multi-byte sequences included, is
  returned as that text after newline translation. The translation leaves a text without
  \<^verbatim>\<open>\r\<close> as it is, turns \<^verbatim>\<open>\r\n\<close> into \<^verbatim>\<open>\n\<close> and a lone \<^verbatim>\<open>\r\<close> into
  \<^verbatim>\<open>\n\<close>, so no \<^verbatim>\<open>\r\<close> is ever returned. Nothing keeps the path under
  \<^verbatim>\<open>DOCS_ROOT\<close>: an absolute argument replaces \<^verbatim>\<open>DOCS_ROOT\<close> altogether, so the
  result does not depend on it, and \<^verbatim>\<open>../n\<close> reads the file \<open>n\<close> beside the docs
  directory, a place that does not lie under it. A plain name within the limits that is
  not in the docs directory fails with \<^verbatim>\<open>FileNotFoundError\<close>, and one longer than
  \<^verbatim>\<open>NAME_MAX\<close> with \<^verbatim>\<open>OSError\<close> (errno 36).
\<close>

theorem read_file_unchecked_join:
  "(read_file os R rel = Inr s \<longleftrightarrow>
      (\<exists>bs cps. os_read os (truediv R rel) = Inr bs \<and> utf8_decode bs = Some cps
         \<and> s = universal_newlines cps))
   \<and> (\<forall>e. os_read os (truediv R rel) = Inl e \<longrightarrow> read_file os R rel = Inl e)
   \<and> (\<forall>bs. os_read os (truediv R rel) = Inr bs \<and> utf8_decode bs = None
          \<longrightarrow> read_file os R rel = Inl UnicodeDecodeError)
   \<and> (\<forall>bs. os_read os (truediv R rel) = Inr bs \<and> (\<exists>b \<in> set bs. never_in_utf8 b)
          \<longrightarrow> read_file os R rel = Inl UnicodeDecodeError)
   \<and> (\<forall>cps. (\<forall>cp \<in> set cps. scalar_value cp)
          \<and> os_read os (truediv R rel) = Inr (encode_text cps)
          \<longrightarrow> read_file os R rel = Inr (universal_newlines cps))
   \<and> (\<forall>t. read_file os R rel = Inr t \<longrightarrow> 13 \<notin> set t)
   \<and> (\<forall>cps. 13 \<notin> set cps \<longrightarrow> universal_newlines cps = cps)
   \<and> (\<forall>xs ys. universal_newlines (xs @ 13 # 10 # ys)
          = universal_newlines xs @ 10 # universal_newlines ys)
   \<and> (\<forall>xs ys. ys = [] \<or> hd ys \<noteq> 10
          \<longrightarrow> universal_newlines (xs @ 13 # ys) = universal_newlines xs @ 10 # universal_newlines ys)
   \<and> (is_absolute (parse_path rel)
          \<longrightarrow> truediv R rel = parse_path rel \<and> read_file os R rel = read_file os R' rel)
   \<and> (\<forall>d es anc. resolve os R = Inr ((d, Dir es) # anc) \<and> map_of es n = None
          \<and> plain_name n \<and> \<not> has_nul R \<and> length n \<le> name_max os
          \<and> length (path_string (truediv R n)) < path_max os
          \<longrightarrow> read_file os R n = Inl FileNotFoundError)
   \<and> (\<forall>d es anc. resolve os R = Inr ((d, Dir es) # anc)
          \<and> plain_name n \<and> \<not> has_nul R \<and> name_max os < length n
          \<longrightarrow> read_file os R n = Inl OSError_ENAMETOOLONG)
   \<and> (\<forall>d es pn ps anc bs cps.
          resolve os R = Inr ((d, Dir es) # (pn, Dir ps) # anc) \<and> map_of ps n = Some (File bs)
          \<and> plain_name n \<and> n \<noteq> d \<and> \<not> has_nul R \<and> utf8_decode bs = Some cps
          \<and> length n \<le> name_max os
          \<and> length (path_string (truediv R (''../'' @ n))) < path_max os
          \<longrightarrow> read_file os R (''../'' @ n) = Inr (universal_newlines cps)
              \<and> (\<exists>root_loc loc. realpath os R = Inr root_loc
                    \<and> realpath os (truediv R (''../'' @ n)) = Inr loc
                    \<and> \<not> prefix root_loc loc))"
proof (intro conjI allI impI)
  show "read_file os R rel = Inr s \<longleftrightarrow>
      (\<exists>bs cps. os_read os (truediv R rel) = Inr bs \<and> utf8_decode bs = Some cps
         \<and> s = universal_newlines cps)"
    by (rule read_file_Inr_iff)
next
  fix e assume "os_read os (truediv R rel) = Inl e"
  then show "read_file os R rel = Inl e" by (rule read_file_os_error)
next
  fix bs assume "os_read os (truediv R rel) = Inr bs \<and> utf8_decode bs = None"
  then show "read_file os R rel = Inl UnicodeDecodeError"
    by (simp add: read_file_decode_error)
next
  fix bs assume "os_read os (truediv R rel) = Inr bs \<and> (\<exists>b \<in> set bs. never_in_utf8 b)"
  then show "read_file os R rel = Inl UnicodeDecodeError"
    using utf8_decode_never read_file_decode_error by blast
next
  fix cps
  assume "(\<forall>cp \<in> set cps. scalar_value cp) \<and> os_read os (truediv R rel) = Inr (encode_text cps)"
  then show "read_file os R rel = Inr (universal_newlines cps)"
    using utf8_decode_encode_text[of cps] by (simp add: read_file_def)
next
  fix t assume "read_file os R rel = Inr t"
  then show "13 \<notin> set t"
    using universal_newlines_no_cr by (auto simp: read_file_Inr_iff)
next
  fix cps :: "nat list" assume "13 \<notin> set cps"
  then show "universal_newlines cps = cps" by (rule universal_newlines_id)
next
  fix xs ys :: "nat list"
  show "universal_newlines (xs @ 13 # 10 # ys) = universal_newlines xs @ 10 # universal_newlines ys"
    by (simp only: universal_newlines_append_cr universal_newlines_crlf)
next
  fix xs ys :: "nat list" assume "ys = [] \<or> hd ys \<noteq> 10"
  then show "universal_newlines (xs @ 13 # ys) = universal_newlines xs @ 10 # universal_newlines ys"
    by (simp only: universal_newlines_append_cr universal_newlines_cr)
next
  assume "is_absolute (parse_path rel)"
  then show "truediv R rel = parse_path rel" by (rule truediv_absolute)
next
  assume "is_absolute (parse_path rel)"
  then show "read_file os R rel = read_file os R' rel" by (rule read_file_absolute)
next
  fix d es anc
  assume "resolve os R = Inr ((d, Dir es) # anc) \<and> map_of es n = None
          \<and> plain_name n \<and> \<not> has_nul R \<and> length n \<le> name_max os
          \<and> length (path_string (truediv R n)) < path_max os"
  then show "read_file os R n = Inl FileNotFoundError"
    using read_file_missing by blast
next
  fix d es anc
  assume "resolve os R = Inr ((d, Dir es) # anc)
          \<and> plain_name n \<and> \<not> has_nul R \<and> name_max os < length n"
  then show "read_file os R n = Inl OSError_ENAMETOOLONG"
    using read_file_name_too_long by blast
next
  fix d es pn ps anc bs cps
  assume h: "resolve os R = Inr ((d, Dir es) # (pn, Dir ps) # anc) \<and> map_of ps n = Some (File bs)
          \<and> plain_name n \<and> n \<noteq> d \<and> \<not> has_nul R \<and> utf8_decode bs = Some cps
          \<and> length n \<le> name_max os
          \<and> length (path_string (truediv R (''../'' @ n))) < path_max os"
  then show "read_file os R (''../'' @ n) = Inr (universal_newlines cps)"
    using dotdot_escapes(1) by blast
next
  fix d es pn ps anc bs cps
  assume h: "resolve os R = Inr ((d, Dir es) # (pn, Dir ps) # anc) \<and> map_of ps n = Some (File bs)
          \<and> plain_name n \<and> n \<noteq> d \<and> \<not> has_nul R \<and> utf8_decode bs = Some cps
          \<and> length n \<le> name_max os
          \<and> length (path_string (truediv R (''../'' @ n))) < path_max os"
  then have r: "resolve os R = Inr ((d, Dir es) # (pn, Dir ps) # anc)"
    and f: "map_of ps n = Some (File bs)" and pl: "plain_name n" and nd: "n \<noteq> d"
    and nn: "\<not> has_nul R" and dec: "utf8_decode bs = Some cps"
    and nl: "length n \<le> name_max os"
    and pm: "length (path_string (truediv R (''../'' @ n))) < path_max os"
    by blast+
  from dotdot_escapes(2-4)[OF r f pl nn nd dec nl pm]
  show "\<exists>root_loc loc. realpath os R = Inr root_loc
                    \<and> realpath os (truediv R (''../'' @ n)) = Inr loc
                    \<and> \<not> prefix root_loc loc"
    by blast
qed

lemma ex_resolve_root:
  "resolve example_os example_docs_root =
     Inr [(''docs'', Dir docs_entries), (''repo'', Dir repo_entries), ([], Dir root_entries)]"
  by code_simp

lemma ex_no_nul: "\<not> has_nul example_docs_root"
  by code_simp

lemma ex_plain: "plain_name ''missing.md''" "plain_name ''secret.txt''" "plain_name long_name"
  by code_simp+

lemma ex_lengths:
  "length ''missing.md'' \<le> name_max example_os"
  "length (path_string (truediv example_docs_root ''missing.md'')) < path_max example_os"
  "length ''secret.txt'' \<le> name_max example_os"
  "length (path_string (truediv example_docs_root (''../'' @ ''secret.txt''))) < path_max example_os"
  "name_max example_os < length long_name"
  by code_simp+

lemma ex_missing: "map_of docs_entries ''missing.md'' = None"
  by code_simp

lemma ex_secret: "map_of repo_entries ''secret.txt'' = Some (File [0x6B, 0x65, 0x79])"
  by code_simp

lemma ex_secret_decode: "utf8_decode [0x6B, 0x65, 0x79] = Some [107, 101, 121]"
  by code_simp

lemma ex_index_read:
  "os_read example_os (truediv example_docs_root ''index.md'') = Inr [0x68, 0x69, 0x0D, 0x0A]"
  by code_simp

lemma ex_index_decode: "utf8_decode [0x68, 0x69, 0x0D, 0x0A] = Some [104, 105, 13, 10]"
  by code_simp

lemma ex_cafe_read:
  "os_read example_os (truediv example_docs_root ''cafe.md'')
     = Inr (encode_text [99, 97, 102, 233, 13, 33])"
  by code_simp

lemma ex_cafe_scalar: "\<forall>cp \<in> set [99, 97, 102, 233, 13, 33]. scalar_value cp"
  by (simp add: scalar_value_def)

lemma ex_latin1_read:
  "os_read example_os (truediv example_docs_root ''latin1.md'') = Inr [0x63, 0x61, 0x66, 0xE9]"
  by code_simp

lemma ex_latin1_decode: "utf8_decode [0x63, 0x61, 0x66, 0xE9] = None"
  by code_simp

lemma ex_utf16_read:
  "os_read example_os (truediv example_docs_root ''utf16.md'')
     = Inr [0xFF, 0xFE, 0x68, 0x00, 0x69, 0x00]"
  by code_simp

lemma ex_utf16_never: "never_in_utf8 0xFF"
  by code_simp

lemma ex_abs: "is_absolute (parse_path ''/etc/passwd'')"
  by code_simp

lemma ex_passwd:
  "read_file example_os \<lparr>root = [], parts = []\<rparr> ''/etc/passwd'' = Inr [114, 111, 111, 116]"
  by code_simp

lemma ex_newlines: "universal_newlines [104, 105, 13, 10] = [104, 105, 10]"
  "universal_newlines [107, 101, 121] = [107, 101, 121]"
  by code_simp+

theorem read_file_unchecked_join_witness:
  "read_file example_os example_docs_root ''index.md'' = Inr [104, 105, 10]
   \<and> read_file example_os example_docs_root ''cafe.md'' = Inr [99, 97, 102, 233, 10, 33]
   \<and> read_file example_os example_docs_root ''latin1.md'' = Inl UnicodeDecodeError
   \<and> read_file example_os example_docs_root ''utf16.md'' = Inl UnicodeDecodeError
   \<and> read_file example_os example_docs_root ''missing.md'' = Inl FileNotFoundError
   \<and> length long_name = 256
   \<and> read_file example_os example_docs_root long_name = Inl OSError_ENAMETOOLONG
   \<and> is_absolute (parse_path ''/etc/passwd'')
   \<and> truediv example_docs_root ''/etc/passwd'' = parse_path ''/etc/passwd''
   \<and> read_file example_os example_docs_root ''/etc/passwd'' = Inr [114, 111, 111, 116]
   \<and> plain_name ''secret.txt''
   \<and> read_file example_os example_docs_root ''../secret.txt'' = Inr [107, 101, 121]
   \<and> (\<exists>root_loc loc. realpath example_os example_docs_root = Inr root_loc
          \<and> realpath example_os (truediv example_docs_root ''../secret.txt'') = Inr loc
          \<and> \<not> prefix root_loc loc)"
proof -
  let ?R0 = "\<lparr>root = [], parts = []\<rparr>"
  note T = read_file_unchecked_join[where os = example_os and R = example_docs_root
      and R' = ?R0]
  note Ti = T[where rel = "''index.md''" and s = "[104, 105, 10]" and n = "[]"]
  note Tc = T[where rel = "''cafe.md''" and s = "[]" and n = "[]"]
  note Tl = T[where rel = "''latin1.md''" and s = "[]" and n = "[]"]
  note Tu = T[where rel = "''utf16.md''" and s = "[]" and n = "[]"]
  note Tm = T[where rel = "[]" and s = "[]" and n = "''missing.md''"]
  note Tn = T[where rel = "[]" and s = "[]" and n = long_name]
  note Tp = T[where rel = "''/etc/passwd''" and s = "[]" and n = "[]"]
  note Ts = T[where rel = "[]" and s = "[]" and n = "''secret.txt''"]
  from Ti have "read_file example_os example_docs_root ''index.md'' = Inr [104, 105, 10]
      \<longleftrightarrow> (\<exists>bs cps. os_read example_os (truediv example_docs_root ''index.md'') = Inr bs
             \<and> utf8_decode bs = Some cps \<and> [104, 105, 10] = universal_newlines cps)"
    by (elim conjE)
  then have a: "read_file example_os example_docs_root ''index.md'' = Inr [104, 105, 10]"
    using ex_index_read ex_index_decode ex_newlines(1) by metis
  from Tc have "\<forall>cps. (\<forall>cp \<in> set cps. scalar_value cp)
          \<and> os_read example_os (truediv example_docs_root ''cafe.md'') = Inr (encode_text cps)
          \<longrightarrow> read_file example_os example_docs_root ''cafe.md'' = Inr (universal_newlines cps)"
    by (elim conjE)
  then have b1: "read_file example_os example_docs_root ''cafe.md''
              = Inr (universal_newlines [99, 97, 102, 233, 13, 33])"
    using ex_cafe_read ex_cafe_scalar by blast
  from Tc have lone: "\<forall>xs ys. ys = [] \<or> hd ys \<noteq> 10
          \<longrightarrow> universal_newlines (xs @ 13 # ys) = universal_newlines xs @ 10 # universal_newlines ys"
    by (elim conjE)
  from Tc have same: "\<forall>cps. 13 \<notin> set cps \<longrightarrow> universal_newlines cps = cps"
    by (elim conjE)
  have "universal_newlines ([99, 97, 102, 233] @ 13 # [33])
          = universal_newlines [99, 97, 102, 233] @ 10 # universal_newlines [33]"
    using lone[rule_format, of "[33]" "[99, 97, 102, 233]"] by simp
  moreover have "universal_newlines [99, 97, 102, 233] = [99, 97, 102, 233]"
    using same[rule_format, of "[99, 97, 102, 233]"] by simp
  moreover have "universal_newlines [33] = [33]"
    using same[rule_format, of "[33]"] by simp
  ultimately have b2: "universal_newlines [99, 97, 102, 233, 13, 33] = [99, 97, 102, 233, 10, 33]"
    by simp
  have b: "read_file example_os example_docs_root ''cafe.md'' = Inr [99, 97, 102, 233, 10, 33]"
    using b1 b2 by simp
  from Tl have "\<forall>bs. os_read example_os (truediv example_docs_root ''latin1.md'') = Inr bs
          \<and> utf8_decode bs = None
          \<longrightarrow> read_file example_os example_docs_root ''latin1.md'' = Inl UnicodeDecodeError"
    by (elim conjE)
  then have c: "read_file example_os example_docs_root ''latin1.md'' = Inl UnicodeDecodeError"
    using ex_latin1_read ex_latin1_decode by blast
  have nv: "\<exists>b \<in> set [0xFF, 0xFE, 0x68, 0x00, 0x69, 0x00]. never_in_utf8 b"
    using ex_utf16_never by simp
  from Tu have "\<forall>bs. os_read example_os (truediv example_docs_root ''utf16.md'') = Inr bs
          \<and> (\<exists>b \<in> set bs. never_in_utf8 b)
          \<longrightarrow> read_file example_os example_docs_root ''utf16.md'' = Inl UnicodeDecodeError"
    by (elim conjE)
  then have c2: "read_file example_os example_docs_root ''utf16.md'' = Inl UnicodeDecodeError"
    using ex_utf16_read nv by blast
  from Tm have "\<forall>d es anc. resolve example_os example_docs_root = Inr ((d, Dir es) # anc)
          \<and> map_of es ''missing.md'' = None
          \<and> plain_name ''missing.md'' \<and> \<not> has_nul example_docs_root
          \<and> length ''missing.md'' \<le> name_max example_os
          \<and> length (path_string (truediv example_docs_root ''missing.md'')) < path_max example_os
          \<longrightarrow> read_file example_os example_docs_root ''missing.md'' = Inl FileNotFoundError"
    by (elim conjE)
  then have d: "read_file example_os example_docs_root ''missing.md'' = Inl FileNotFoundError"
    using ex_resolve_root ex_missing ex_plain(1) ex_no_nul ex_lengths(1,2) by blast
  from Tn have "\<forall>d es anc. resolve example_os example_docs_root = Inr ((d, Dir es) # anc)
          \<and> plain_name long_name \<and> \<not> has_nul example_docs_root
          \<and> name_max example_os < length long_name
          \<longrightarrow> read_file example_os example_docs_root long_name = Inl OSError_ENAMETOOLONG"
    by (elim conjE)
  then have e: "read_file example_os example_docs_root long_name = Inl OSError_ENAMETOOLONG"
    using ex_resolve_root ex_plain(3) ex_no_nul ex_lengths(5) by blast
  from Tp have "is_absolute (parse_path ''/etc/passwd'')
          \<longrightarrow> truediv example_docs_root ''/etc/passwd'' = parse_path ''/etc/passwd''
              \<and> read_file example_os example_docs_root ''/etc/passwd''
                  = read_file example_os ?R0 ''/etc/passwd''"
    by (elim conjE)
  then have f: "truediv example_docs_root ''/etc/passwd'' = parse_path ''/etc/passwd''
           \<and> read_file example_os example_docs_root ''/etc/passwd'' = Inr [114, 111, 111, 116]"
    using ex_abs ex_passwd by simp
  from Ts have "\<forall>d es pn ps anc bs cps.
          resolve example_os example_docs_root = Inr ((d, Dir es) # (pn, Dir ps) # anc)
          \<and> map_of ps ''secret.txt'' = Some (File bs)
          \<and> plain_name ''secret.txt'' \<and> ''secret.txt'' \<noteq> d \<and> \<not> has_nul example_docs_root
          \<and> utf8_decode bs = Some cps
          \<and> length ''secret.txt'' \<le> name_max example_os
          \<and> length (path_string (truediv example_docs_root (''../'' @ ''secret.txt'')))
              < path_max example_os
          \<longrightarrow> read_file example_os example_docs_root (''../'' @ ''secret.txt'')
                = Inr (universal_newlines cps)
              \<and> (\<exists>root_loc loc. realpath example_os example_docs_root = Inr root_loc
                    \<and> realpath example_os (truediv example_docs_root (''../'' @ ''secret.txt''))
                        = Inr loc
                    \<and> \<not> prefix root_loc loc)"
    by (elim conjE)
  moreover have "''secret.txt'' \<noteq> ''docs''" by simp
  ultimately
  have g: "read_file example_os example_docs_root (''../'' @ ''secret.txt'')
             = Inr (universal_newlines [107, 101, 121])
           \<and> (\<exists>root_loc loc. realpath example_os example_docs_root = Inr root_loc
                \<and> realpath example_os (truediv example_docs_root (''../'' @ ''secret.txt'')) = Inr loc
                \<and> \<not> prefix root_loc loc)"
    using ex_resolve_root ex_secret ex_plain(2) ex_no_nul ex_secret_decode ex_lengths(3,4)
    by blast
  have app: "''../'' @ ''secret.txt'' = ''../secret.txt''" by simp
  have len: "length long_name = 256" by (simp add: long_name_def)
  show ?thesis
    using a b c c2 d e f g ex_abs ex_plain(2) len unfolding app ex_newlines(2) by blast
qed

text \<open>
  The claim as written says the result is exactly the decoded text. A page that ends
  with \<^verbatim>\<open>\r\n\<close> decodes to four code points and is returned as three.
\<close>

theorem read_file_translates_newlines:
  "os_read example_os (truediv example_docs_root ''index.md'') = Inr [0x68, 0x69, 0x0D, 0x0A]
   \<and> utf8_decode [0x68, 0x69, 0x0D, 0x0A] = Some [104, 105, 13, 10]
   \<and> read_file example_os example_docs_root ''index.md'' = Inr [104, 105, 10]
   \<and> read_file example_os example_docs_root ''index.md'' \<noteq> Inr [104, 105, 13, 10]"
proof -
  have "read_file example_os example_docs_root ''index.md'' = Inr [104, 105, 10]"
    by code_simp
  then show ?thesis
    using ex_index_read ex_index_decode by simp
qed

section \<open>Properties of the federation engine\<close>






lemma precedes_total: "\<not> precedes d x y \<Longrightarrow> precedes d y x"
  by (cases d) (auto simp: precedes_def split: if_splits)

lemma key_precedes_trans: "key_precedes d x y \<Longrightarrow> key_precedes d y z \<Longrightarrow> key_precedes d x z"
  by (cases d) (auto simp: key_precedes_def)

lemma precedes_key: "precedes d x y \<Longrightarrow> key_precedes d x y"
  by (cases d) (auto simp: precedes_def key_precedes_def split: if_splits)

lemma not_precedes_key: "\<not> precedes d x y \<Longrightarrow> key_precedes d y x"
  using precedes_total precedes_key by blast


































end
